theory Spec2Isabelle
  imports Main "HOL-Library.Word"
begin

unbundle bit_operations_syntax

section \<open>The host: byte orders and built-in integers\<close>

text \<open>
  \<open>std::endian\<close> has the two concrete orders; \<open>std::endian::native\<close> is one of them,
  fixed by the host, and is passed to every operation that reads it as the argument
  \<open>native\<close>.
\<close>

datatype endian = little | big

text \<open>\<open>std::operator~(endian)\<close>, Int.hpp lines 17-22.\<close>

definition endian_not :: "endian \<Rightarrow> endian" where
  "endian_not x = (if x = little then big else little)"

text \<open>
  An integral type \<open>T\<close> is a width, carried by the type \<open>'a word\<close>, and a signedness,
  carried by a value of \<open>signedness\<close>. An rvalue of such a type is handed to a
  conversion as the integer it denotes (\<open>to_int\<close>). Every integral type of the
  language occupies whole bytes: the theorems that reverse bytes assume
  \<open>8 dvd LENGTH('a)\<close>.
\<close>

datatype signedness = signed_integral | unsigned_integral

definition to_int :: "signedness \<Rightarrow> 'a::len word \<Rightarrow> int" where
  "to_int s x = (case s of signed_integral \<Rightarrow> sint x | unsigned_integral \<Rightarrow> uint x)"

text \<open>
  The integral conversion of the language, which \<open>static_cast<To>(x)\<close> and every
  implicit conversion between integral types perform: the value of \<open>To\<close> congruent to
  \<open>x\<close> modulo \<open>2 ^ N\<close>, \<open>N\<close> the width of \<open>To\<close>.
\<close>

definition static_cast :: "int \<Rightarrow> 'b::len word" where
  "static_cast x = word_of_int x"

text \<open>\<open>narrow_cast<To>(From x)\<close>, Int.hpp lines 28-29.\<close>

definition narrow_cast :: "int \<Rightarrow> 'b::len word" where
  "narrow_cast x = static_cast x"

text \<open>
  The two's-complement reading of a residue \<open>k\<close> modulo \<open>2 ^ w\<close> in a type of width
  \<open>w\<close> and signedness \<open>s\<close>.
\<close>

definition reinterpret :: "signedness \<Rightarrow> nat \<Rightarrow> int \<Rightarrow> int" where
  "reinterpret s w k =
     (if s = signed_integral \<and> 2 ^ (w - 1) \<le> k then k - 2 ^ w else k)"

text \<open>
  \<open>std::byteswap\<close> of the standard library: the bytes of the object representation,
  in reverse order. \<open>object_bytes\<close> lists the bytes from the least significant one.
\<close>

definition object_bytes :: "'a::len word \<Rightarrow> 8 word list" where
  "object_bytes x = map (\<lambda>i. ucast (drop_bit (8 * i) x)) [0 ..< LENGTH('a) div 8]"

definition from_bytes :: "8 word list \<Rightarrow> 'a::len word" where
  "from_bytes bs = word_of_int (horner_sum uint (2 ^ 8) bs)"

definition std_byteswap :: "'a::len word \<Rightarrow> 'a word" where
  "std_byteswap x = from_bytes (rev (object_bytes x))"

text \<open>
  The built-in operators on a value of type \<open>T\<close>, after the integral promotions: a type
  narrower than \<open>int\<close> (of \<open>int_width\<close> bits) is promoted to \<open>int\<close>, any other type
  stays as it is. The result is the integer denoted in the promoted type; signed
  overflow is undefined behaviour (\<open>None\<close>).
\<close>

definition promotes_to_signed :: "nat \<Rightarrow> signedness \<Rightarrow> nat \<Rightarrow> bool" where
  "promotes_to_signed int_width s w \<longleftrightarrow> w < int_width \<or> s = signed_integral"

definition promoted_width :: "nat \<Rightarrow> nat \<Rightarrow> nat" where
  "promoted_width int_width w = max int_width w"

definition builtin_compl :: "nat \<Rightarrow> signedness \<Rightarrow> 'a::len word \<Rightarrow> int" where
  "builtin_compl int_width s x =
     (if promotes_to_signed int_width s LENGTH('a) then - to_int s x - 1
      else 2 ^ promoted_width int_width LENGTH('a) - 1 - to_int s x)"

definition builtin_neg :: "nat \<Rightarrow> signedness \<Rightarrow> 'a::len word \<Rightarrow> int option" where
  "builtin_neg int_width s x =
     (if promotes_to_signed int_width s LENGTH('a)
      then (if - to_int s x < 2 ^ (promoted_width int_width LENGTH('a) - 1)
            then Some (- to_int s x) else None)
      else Some ((- to_int s x) mod 2 ^ promoted_width int_width LENGTH('a)))"

datatype strong_ordering = ordering_less | ordering_equal | ordering_greater

definition builtin_spaceship :: "signedness \<Rightarrow> 'a::len word \<Rightarrow> 'a word \<Rightarrow> strong_ordering" where
  "builtin_spaceship s a b =
     (if to_int s a < to_int s b then ordering_less
      else if to_int s a = to_int s b then ordering_equal
      else ordering_greater)"


section \<open>The class \<open>Int<T, E>\<close>\<close>

text \<open>
  Int.hpp lines 35-43: the static member \<open>Endian\<close> and the one data member \<open>_raw\<close>.
  Two objects of the same instantiation have the same \<open>Endian\<close>. The type is
  named \<open>tjg_Int\<close> after its namespace.
\<close>

record (overloaded) 'a tjg_Int =
  Endian :: endian
  raw :: "'a word"

text \<open>\<open>Int()\<close>, lines 43 and 61: \<open>_raw = value_type{0}\<close>.\<close>

definition Int_default :: "endian \<Rightarrow> 'a::len tjg_Int" where
  "Int_default E = \<lparr>Endian = E, raw = 0\<rparr>"

text \<open>\<open>_get<Rep>\<close>, lines 45-51.\<close>

definition Int_get :: "endian \<Rightarrow> 'a::len tjg_Int \<Rightarrow> 'a word" where
  "Int_get Rep x = (if Endian x = Rep then raw x else std_byteswap (raw x))"

text \<open>\<open>_set\<close>, lines 53-58.\<close>

definition Int_set :: "endian \<Rightarrow> 'a::len tjg_Int \<Rightarrow> 'a word \<Rightarrow> 'a tjg_Int" where
  "Int_set native this x =
     (if Endian this = native then this\<lparr>raw := x\<rparr> else this\<lparr>raw := std_byteswap x\<rparr>)"

text \<open>\<open>explicit Int(T x)\<close>, line 66.\<close>

definition Int_ctor :: "endian \<Rightarrow> endian \<Rightarrow> 'a::len word \<Rightarrow> 'a tjg_Int" where
  "Int_ctor native E x = Int_set native (Int_default E) x"

text \<open>The accessors \<open>value\<close>, \<open>big\<close>, \<open>little\<close> and \<open>operator T\<close>, lines 95-104.\<close>

definition "value" :: "endian \<Rightarrow> 'a::len tjg_Int \<Rightarrow> 'a word" where
  "value native x = Int_get native x"

definition Int_big :: "'a::len tjg_Int \<Rightarrow> 'a word" where
  "Int_big x = Int_get big x"

definition Int_little :: "'a::len tjg_Int \<Rightarrow> 'a word" where
  "Int_little x = Int_get little x"

definition operator_T :: "endian \<Rightarrow> 'a::len tjg_Int \<Rightarrow> 'a word" where
  "operator_T native x = value native x"

text \<open>The defaulted \<open>operator==\<close>, line 64: member-wise, so on \<open>_raw\<close>.\<close>

definition operator_eq :: "'a::len tjg_Int \<Rightarrow> 'a tjg_Int \<Rightarrow> bool" where
  "operator_eq x y \<longleftrightarrow> raw x = raw y"

text \<open>
  \<open>operator<=>\<close>, lines 107-108, and the relational operators the language rewrites
  to it.
\<close>

definition operator_spaceship ::
  "endian \<Rightarrow> signedness \<Rightarrow> 'a::len tjg_Int \<Rightarrow> 'a tjg_Int \<Rightarrow> strong_ordering" where
  "operator_spaceship native s x y = builtin_spaceship s (value native x) (value native y)"

definition operator_lt :: "endian \<Rightarrow> signedness \<Rightarrow> 'a::len tjg_Int \<Rightarrow> 'a tjg_Int \<Rightarrow> bool" where
  "operator_lt native s x y \<longleftrightarrow> operator_spaceship native s x y = ordering_less"

definition operator_le :: "endian \<Rightarrow> signedness \<Rightarrow> 'a::len tjg_Int \<Rightarrow> 'a tjg_Int \<Rightarrow> bool" where
  "operator_le native s x y \<longleftrightarrow> operator_spaceship native s x y \<noteq> ordering_greater"

definition operator_gt :: "endian \<Rightarrow> signedness \<Rightarrow> 'a::len tjg_Int \<Rightarrow> 'a tjg_Int \<Rightarrow> bool" where
  "operator_gt native s x y \<longleftrightarrow> operator_spaceship native s x y = ordering_greater"

definition operator_ge :: "endian \<Rightarrow> signedness \<Rightarrow> 'a::len tjg_Int \<Rightarrow> 'a tjg_Int \<Rightarrow> bool" where
  "operator_ge native s x y \<longleftrightarrow> operator_spaceship native s x y \<noteq> ordering_less"

text \<open>The unary operators and the conversion to \<open>bool\<close>, lines 111-116.\<close>

definition operator_plus :: "'a::len tjg_Int \<Rightarrow> 'a tjg_Int" where
  "operator_plus x = x"

definition operator_neg :: "nat \<Rightarrow> endian \<Rightarrow> signedness \<Rightarrow> 'a::len tjg_Int \<Rightarrow> int option" where
  "operator_neg int_width native s x = builtin_neg int_width s (value native x)"

definition operator_compl :: "nat \<Rightarrow> signedness \<Rightarrow> 'a::len tjg_Int \<Rightarrow> 'a tjg_Int" where
  "operator_compl int_width s this =
     (Int_default (Endian this))\<lparr>raw := narrow_cast (builtin_compl int_width s (raw this))\<rparr>"

definition operator_lnot :: "'a::len tjg_Int \<Rightarrow> bool" where
  "operator_lnot x \<longleftrightarrow> raw x = 0"

definition operator_bool :: "'a::len tjg_Int \<Rightarrow> bool" where
  "operator_bool x \<longleftrightarrow> raw x \<noteq> 0"

text \<open>
  The bitwise compound assignments between two objects of one instantiation, lines
  172-177, and the binary operators built on a copy of \<open>*this\<close>, lines 189-191.
\<close>

definition operator_or_assign :: "'a::len tjg_Int \<Rightarrow> 'a tjg_Int \<Rightarrow> 'a tjg_Int" where
  "operator_or_assign this rhs = this\<lparr>raw := raw this OR raw rhs\<rparr>"

definition operator_and_assign :: "'a::len tjg_Int \<Rightarrow> 'a tjg_Int \<Rightarrow> 'a tjg_Int" where
  "operator_and_assign this rhs = this\<lparr>raw := raw this AND raw rhs\<rparr>"

definition operator_xor_assign :: "'a::len tjg_Int \<Rightarrow> 'a tjg_Int \<Rightarrow> 'a tjg_Int" where
  "operator_xor_assign this rhs = this\<lparr>raw := raw this XOR raw rhs\<rparr>"

definition operator_or :: "'a::len tjg_Int \<Rightarrow> 'a tjg_Int \<Rightarrow> 'a tjg_Int" where
  "operator_or this rhs = operator_or_assign this rhs"

definition operator_and :: "'a::len tjg_Int \<Rightarrow> 'a tjg_Int \<Rightarrow> 'a tjg_Int" where
  "operator_and this rhs = operator_and_assign this rhs"

definition operator_xor :: "'a::len tjg_Int \<Rightarrow> 'a tjg_Int \<Rightarrow> 'a tjg_Int" where
  "operator_xor this rhs = operator_xor_assign this rhs"


section \<open>Casts between instantiations\<close>

text \<open>
  \<open>endian_cast<To>\<close>, lines 216-218: \<open>Int<T, To>{x}\<close>. When \<open>To\<close> is the order of \<open>x\<close>
  the braces select the copy constructor; otherwise \<open>x\<close> goes through \<open>operator T\<close> to
  the constructor from \<open>T\<close>.
\<close>

definition endian_cast :: "endian \<Rightarrow> endian \<Rightarrow> 'a::len tjg_Int \<Rightarrow> 'a tjg_Int" where
  "endian_cast native To x =
     (if To = Endian x then x else Int_ctor native To (operator_T native x))"

text \<open>
  The truncating cast of an \<open>Int\<close>: the overload for \<open>ToT \<noteq> FmT\<close>, lines 220-223, and
  the one for \<open>ToT = FmT\<close>, lines 225-228.
\<close>

definition narrow_cast_Int :: "endian \<Rightarrow> signedness \<Rightarrow> 'f::len tjg_Int \<Rightarrow> 't::len tjg_Int" where
  "narrow_cast_Int native sF x = Int_ctor native native (narrow_cast (to_int sF (value native x)))"

definition narrow_cast_same :: "'t::len tjg_Int \<Rightarrow> 't tjg_Int" where
  "narrow_cast_same x = x"

text \<open>\<open>byteswap\<close>, lines 230-233: \<open>Int<T, ~E>{x}\<close>, and \<open>~E\<close> is never \<open>E\<close>.\<close>

definition byteswap :: "endian \<Rightarrow> 'a::len tjg_Int \<Rightarrow> 'a tjg_Int" where
  "byteswap native x = Int_ctor native (endian_not (Endian x)) (operator_T native x)"


section \<open>Conversions the compiler accepts or rejects\<close>


definition type_min :: "signedness \<Rightarrow> nat \<Rightarrow> int" where
  "type_min s w = (case s of signed_integral \<Rightarrow> - (2 ^ (w - 1)) | unsigned_integral \<Rightarrow> 0)"















section \<open>Byte reversal\<close>

lemma bit_std_byteswap_iff:
  "bit (std_byteswap (x::'a::len word)) i \<longleftrightarrow>
     i < LENGTH('a) \<and> i div 8 < LENGTH('a) div 8 \<and>
     bit x (8 * (LENGTH('a) div 8 - 1 - i div 8) + i mod 8)"
  by (auto simp add: std_byteswap_def from_bytes_def object_bytes_def bit_word_of_int_iff
      bit_horner_sum_uint_exp_iff[where 'a=8, simplified] rev_nth bit_ucast_iff bit_drop_bit_eq)

lemma length_object_bytes: "length (object_bytes (x::'a::len word)) = LENGTH('a) div 8"
  by (simp add: object_bytes_def)

lemma bit_from_bytes_iff:
  "bit (from_bytes bs :: 'a::len word) i \<longleftrightarrow>
     i < LENGTH('a) \<and> i div 8 < length bs \<and> bit (bs ! (i div 8)) (i mod 8)"
  by (simp add: from_bytes_def bit_word_of_int_iff
      bit_horner_sum_uint_exp_iff[where 'a=8, simplified])

lemma object_bytes_nth:
  "k < LENGTH('a) div 8 \<Longrightarrow> object_bytes (x::'a::len word) ! k = ucast (drop_bit (8 * k) x)"
  by (simp add: object_bytes_def)

lemma object_bytes_from_bytes:
  assumes "length bs = LENGTH('a::len) div 8"
  shows "object_bytes (from_bytes bs :: 'a word) = bs"
proof (rule nth_equalityI)
  show "length (object_bytes (from_bytes bs :: 'a word)) = length bs"
    using assms by (simp add: length_object_bytes)
next
  fix k assume "k < length (object_bytes (from_bytes bs :: 'a word))"
  then have k: "k < LENGTH('a) div 8" by (simp add: length_object_bytes)
  show "object_bytes (from_bytes bs :: 'a word) ! k = bs ! k"
  proof (rule bit_word_eqI)
    fix m assume m: "m < LENGTH(8)"
    then have m8: "m < 8" by simp
    have "8 * (LENGTH('a) div 8) \<le> LENGTH('a)" by simp
    with k m8 have lt: "8 * k + m < LENGTH('a)" by linarith
    have d: "(8 * k + m) div 8 = k" "(8 * k + m) mod 8 = m" using m8 by simp_all
    show "bit (object_bytes (from_bytes bs :: 'a word) ! k) m \<longleftrightarrow> bit (bs ! k) m"
      using k m8 lt assms
      by (simp add: object_bytes_nth bit_ucast_iff bit_drop_bit_eq bit_from_bytes_iff d ac_simps)
  qed
qed

lemma from_bytes_object_bytes:
  assumes "8 dvd LENGTH('a::len)"
  shows "from_bytes (object_bytes x) = (x::'a word)"
proof (rule bit_word_eqI)
  fix i assume i: "i < LENGTH('a)"
  with assms have "i div 8 < LENGTH('a) div 8"
    by (auto simp: dvd_def)
  with i show "bit (from_bytes (object_bytes x) :: 'a word) i \<longleftrightarrow> bit x i"
    by (simp add: bit_from_bytes_iff object_bytes_nth bit_ucast_iff bit_drop_bit_eq
        length_object_bytes)
qed

lemma object_bytes_std_byteswap:
  "object_bytes (std_byteswap x) = rev (object_bytes (x::'a::len word))"
  by (simp add: std_byteswap_def object_bytes_from_bytes length_object_bytes)

lemma std_byteswap_involution:
  "8 dvd LENGTH('a::len) \<Longrightarrow> std_byteswap (std_byteswap x) = (x::'a word)"
  by (simp add: std_byteswap_def object_bytes_from_bytes from_bytes_object_bytes
      length_object_bytes)

lemma std_byteswap_or: "std_byteswap (x OR y) = std_byteswap x OR std_byteswap y"
  by (rule bit_word_eqI) (auto simp add: bit_std_byteswap_iff bit_or_iff)

lemma std_byteswap_and: "std_byteswap (x AND y) = std_byteswap x AND std_byteswap y"
  by (rule bit_word_eqI) (auto simp add: bit_std_byteswap_iff bit_and_iff)

lemma std_byteswap_xor: "std_byteswap (x XOR y) = std_byteswap x XOR std_byteswap y"
  by (rule bit_word_eqI) (auto simp add: bit_std_byteswap_iff bit_xor_iff)

lemma std_byteswap_0: "std_byteswap 0 = 0"
  by (rule bit_word_eqI) (simp add: bit_std_byteswap_iff)

lemma std_byteswap_eq_iff:
  "8 dvd LENGTH('a::len) \<Longrightarrow> std_byteswap x = std_byteswap y \<longleftrightarrow> x = (y::'a word)"
  by (metis std_byteswap_involution)

lemma std_byteswap_not:
  assumes "8 dvd LENGTH('a::len)"
  shows "std_byteswap (NOT x) = NOT (std_byteswap (x::'a word))"
proof (rule bit_word_eqI)
  fix i assume i: "i < LENGTH('a)"
  from assms obtain n where n: "LENGTH('a) = 8 * n" by (auto simp: dvd_def)
  from i n have a: "i div 8 < n" by simp
  have "i mod 8 < 8" by simp
  with a have "8 * (n - 1 - i div 8) + i mod 8 < 8 * n" by linarith
  then show "bit (std_byteswap (NOT x)) i \<longleftrightarrow> bit (NOT (std_byteswap x)) i"
    using i a n by (simp add: bit_std_byteswap_iff bit_not_iff)
qed


section \<open>Construction, accessors and byte-order casts\<close>

lemma Endian_Int_ctor: "Endian (Int_ctor native E v) = E"
  by (simp add: Int_ctor_def Int_set_def Int_default_def)

lemma raw_Int_ctor: "raw (Int_ctor native E v) = (if E = native then v else std_byteswap v)"
  by (simp add: Int_ctor_def Int_set_def Int_default_def)

lemma Int_ctor_eq:
  "Int_ctor native E v = \<lparr>Endian = E, raw = (if E = native then v else std_byteswap v)\<rparr>"
  by (simp add: Int_ctor_def Int_set_def Int_default_def)

lemma value_Int_ctor:
  "8 dvd LENGTH('a::len) \<Longrightarrow> value native (Int_ctor native E v) = (v::'a word)"
  by (simp add: value_def Int_get_def Int_ctor_eq std_byteswap_involution)

lemma value_Int_ctor_native: "value native (Int_ctor native native v) = v"
  by (simp add: value_def Int_get_def Int_ctor_eq)

lemma endian_not_neq: "endian_not E \<noteq> E"
  by (cases E) (simp_all add: endian_not_def)

lemma endian_not_involution: "endian_not (endian_not E) = E"
  by (cases E) (simp_all add: endian_not_def)

lemma endian_neq_iff: "E \<noteq> native \<longleftrightarrow> endian_not E = native"
  by (cases E; cases native) (simp_all add: endian_not_def)

lemma raw_byteswap: "raw (byteswap native x) = std_byteswap (raw x)"
  using endian_not_neq [of "Endian x"] endian_neq_iff [of "Endian x" native]
  by (auto simp add: byteswap_def operator_T_def value_def Int_get_def Int_ctor_eq)

lemma value_byteswap:
  "8 dvd LENGTH('a::len) \<Longrightarrow> value native (byteswap native x) = value native (x::'a tjg_Int)"
  by (simp add: byteswap_def operator_T_def value_Int_ctor)

lemma two_power_width: "(2::int) * 2 ^ (LENGTH('a::len) - 1) = 2 ^ LENGTH('a)"
proof -
  obtain n where "LENGTH('a) = Suc n" by (cases "LENGTH('a)") simp_all
  then show ?thesis by simp
qed

lemma sint_eq_reinterpret:
  "sint (w::'a::len word) = (if 2 ^ (LENGTH('a) - 1) \<le> uint w then uint w - 2 ^ LENGTH('a) else uint w)"
proof -
  let ?h = "(2::int) ^ (LENGTH('a) - 1)"
  have p: "2 * ?h = 2 ^ LENGTH('a)" by (rule two_power_width)
  have s: "sint w = (uint w + ?h) mod 2 ^ LENGTH('a) - ?h"
    using int_word_sint [of "uint w", where 'a='a] by simp
  have b: "0 \<le> uint w" "uint w < 2 ^ LENGTH('a)" by simp_all
  show ?thesis
  proof (cases "?h \<le> uint w")
    case True
    have "(uint w + ?h) mod 2 ^ LENGTH('a) = (uint w + ?h - 2 ^ LENGTH('a)) mod 2 ^ LENGTH('a)"
      by (simp only: minus_mod_self2)
    also have "\<dots> = uint w + ?h - 2 ^ LENGTH('a)"
      using True b p by (intro mod_pos_pos_trivial) linarith+
    finally show ?thesis using True s by simp
  next
    case False
    then have "(uint w + ?h) mod 2 ^ LENGTH('a) = uint w + ?h"
      using b p by (intro mod_pos_pos_trivial) linarith+
    with False s show ?thesis by simp
  qed
qed

lemma to_int_eq_reinterpret: "to_int s (w::'a::len word) = reinterpret s LENGTH('a) (uint w)"
  by (cases s) (simp_all add: to_int_def reinterpret_def sint_eq_reinterpret)

lemma static_cast_to_int: "static_cast (to_int s x) = x"
  by (cases s) (simp_all add: static_cast_def to_int_def)

text \<open>
  C3. For every \<open>T\<close> of whole bytes and every \<open>x\<close>, \<open>byteswap (byteswap x)\<close> is \<open>x\<close>
  again, in raw storage and in tag; one application keeps the logical value, reverses
  the bytes of the raw storage and flips the tag.
\<close>

theorem byteswap_involutive:
  assumes "8 dvd LENGTH('a::len)"
  shows "byteswap native (byteswap native x) = (x::'a tjg_Int)
    \<and> operator_eq (byteswap native (byteswap native x)) x
    \<and> value native (byteswap native x) = value native x
    \<and> raw (byteswap native x) = std_byteswap (raw x)
    \<and> object_bytes (raw (byteswap native x)) = rev (object_bytes (raw x))
    \<and> Endian (byteswap native x) = endian_not (Endian x)"
proof -
  have e: "Endian (byteswap native x) = endian_not (Endian x)"
    by (simp add: byteswap_def Endian_Int_ctor)
  have r: "raw (byteswap native x) = std_byteswap (raw x)"
    by (rule raw_byteswap)
  have "Endian (byteswap native (byteswap native x)) = Endian x"
    by (simp add: byteswap_def Endian_Int_ctor endian_not_involution)
  moreover have "raw (byteswap native (byteswap native x)) = raw x"
    using assms by (simp add: raw_byteswap std_byteswap_involution)
  ultimately have i: "byteswap native (byteswap native x) = x"
    by (simp add: tjg_Int.equality)
  show ?thesis
    using assms e r i by (simp add: operator_eq_def value_byteswap object_bytes_std_byteswap)
qed

theorem byteswap_involutive_witness:
  "8 dvd LENGTH(32)
   \<and> byteswap little (byteswap little \<lparr>Endian = big, raw = 0x12345678 :: 32 word\<rparr>)
       = \<lparr>Endian = big, raw = 0x12345678\<rparr>
   \<and> byteswap little \<lparr>Endian = big, raw = 0x12345678 :: 32 word\<rparr>
       = \<lparr>Endian = little, raw = 0x78563412\<rparr>"
proof -
  have h: "8 dvd LENGTH(32)" by simp
  have c: "std_byteswap (0x12345678 :: 32 word) = 0x78563412" by code_simp
  have "byteswap little \<lparr>Endian = big, raw = 0x12345678 :: 32 word\<rparr>
       = \<lparr>Endian = little, raw = 0x78563412\<rparr>"
    using byteswap_involutive [OF h, of little "\<lparr>Endian = big, raw = 0x12345678\<rparr>"] c
    by (simp add: tjg_Int.equality endian_not_def)
  with h byteswap_involutive [OF h, of little "\<lparr>Endian = big, raw = 0x12345678\<rparr>"]
  show ?thesis by simp
qed

text \<open>
  C4. An \<open>Int<T, little>\<close> and an \<open>Int<T, big>\<close> constructed from the same \<open>v\<close> both
  report \<open>v\<close> through \<open>value\<close>, and the raw storage of each is the byte reversal of the
  other's.
\<close>

theorem opposite_orders_same_value_reversed_bytes:
  assumes "8 dvd LENGTH('a::len)"
  shows "value native (Int_ctor native little v) = (v::'a word)
    \<and> value native (Int_ctor native big v) = v
    \<and> raw (Int_ctor native little v) = std_byteswap (raw (Int_ctor native big v))
    \<and> raw (Int_ctor native big v) = std_byteswap (raw (Int_ctor native little v))
    \<and> object_bytes (raw (Int_ctor native little v))
        = rev (object_bytes (raw (Int_ctor native big v)))"
  using assms
  by (cases native) (simp_all add: value_Int_ctor raw_Int_ctor std_byteswap_involution
      object_bytes_std_byteswap)

theorem opposite_orders_same_value_reversed_bytes_witness:
  "8 dvd LENGTH(32)
   \<and> value little (Int_ctor little little (0x12345678 :: 32 word)) = 0x12345678
   \<and> value little (Int_ctor little big (0x12345678 :: 32 word)) = 0x12345678
   \<and> raw (Int_ctor little little (0x12345678 :: 32 word)) = 0x12345678
   \<and> raw (Int_ctor little big (0x12345678 :: 32 word)) = 0x78563412
   \<and> object_bytes (raw (Int_ctor little little (0x12345678 :: 32 word))) = [0x78, 0x56, 0x34, 0x12]
   \<and> object_bytes (raw (Int_ctor little big (0x12345678 :: 32 word))) = [0x12, 0x34, 0x56, 0x78]"
proof -
  have h: "8 dvd LENGTH(32)" by simp
  have c: "std_byteswap (0x12345678 :: 32 word) = 0x78563412" by code_simp
  have b: "object_bytes (0x12345678 :: 32 word) = [0x78, 0x56, 0x34, 0x12]" by code_simp
  have b': "object_bytes (0x78563412 :: 32 word) = [0x12, 0x34, 0x56, 0x78]" by code_simp
  from opposite_orders_same_value_reversed_bytes [OF h, of little "0x12345678"] c b b' h
  show ?thesis by (simp add: raw_Int_ctor)
qed

text \<open>
  C5. Two order casts in a row, to any tags, keep the logical value; the result of
  \<open>endian_cast<To>\<close> carries the tag \<open>To\<close>, and its raw storage is that of the argument
  when \<open>To\<close> is the argument's tag and its byte reversal otherwise.
\<close>

theorem endian_cast_preserves_value:
  assumes "8 dvd LENGTH('a::len)"
  shows "value native (endian_cast native To (endian_cast native To2 x)) = value native (x::'a tjg_Int)
    \<and> value native (endian_cast native To x) = value native x
    \<and> Endian (endian_cast native To x) = To
    \<and> raw (endian_cast native To x) = (if To = Endian x then raw x else std_byteswap (raw x))"
proof -
  have v: "value native (endian_cast native E y) = value native y" for E and y :: "'a tjg_Int"
    using assms by (simp add: endian_cast_def operator_T_def value_Int_ctor)
  have r: "raw (endian_cast native To x) = (if To = Endian x then raw x else std_byteswap (raw x))"
    using assms
    by (cases To; cases "Endian x"; cases native)
      (simp_all add: endian_cast_def operator_T_def raw_Int_ctor value_def Int_get_def
        std_byteswap_involution)
  show ?thesis using v r by (simp add: endian_cast_def Endian_Int_ctor)
qed

theorem endian_cast_preserves_value_witness:
  "8 dvd LENGTH(32)
   \<and> value little (endian_cast little little (endian_cast little big
         \<lparr>Endian = little, raw = 0x12345678 :: 32 word\<rparr>)) = 0x12345678
   \<and> raw (endian_cast little big \<lparr>Endian = little, raw = 0x12345678 :: 32 word\<rparr>) = 0x78563412
   \<and> raw (endian_cast little little \<lparr>Endian = little, raw = 0x12345678 :: 32 word\<rparr>) = 0x12345678"
proof -
  have h: "8 dvd LENGTH(32)" by simp
  have c: "std_byteswap (0x12345678 :: 32 word) = 0x78563412" by code_simp
  from endian_cast_preserves_value [OF h, of little little big "\<lparr>Endian = little, raw = 0x12345678\<rparr>"]
    endian_cast_preserves_value [OF h, of little big big "\<lparr>Endian = little, raw = 0x12345678\<rparr>"]
    c h
  show ?thesis by (simp add: value_def Int_get_def)
qed


text \<open>
  C10. A default-constructed \<open>Int<T, E>\<close> has all-zero raw storage: \<open>raw\<close>,
  \<open>value\<close>, \<open>big\<close> and \<open>little\<close> return 0, the conversion to \<open>bool\<close> is false, and it
  compares equal to \<open>Int<T, E>{0}\<close>, for every width and either tag.
\<close>

theorem default_constructed_is_zero:
  "raw (Int_default E :: 'a::len tjg_Int) = 0
   \<and> value native (Int_default E :: 'a tjg_Int) = 0
   \<and> Int_big (Int_default E :: 'a tjg_Int) = 0
   \<and> Int_little (Int_default E :: 'a tjg_Int) = 0
   \<and> operator_bool (Int_default E :: 'a tjg_Int) = False
   \<and> operator_eq (Int_default E :: 'a tjg_Int) (Int_ctor native E 0)"
  by (simp add: Int_default_def value_def Int_big_def Int_little_def Int_get_def
      operator_bool_def operator_eq_def Int_ctor_def Int_set_def std_byteswap_0)

section \<open>Comparison, bitwise and unary operators\<close>

lemma value_eq_iff:
  "8 dvd LENGTH('a::len) \<Longrightarrow> Endian x = Endian y \<Longrightarrow>
     value native x = value native y \<longleftrightarrow> raw x = raw (y::'a tjg_Int)"
  by (simp add: value_def Int_get_def std_byteswap_eq_iff)

lemma builtin_spaceship_iff:
  "builtin_spaceship s a b = ordering_less \<longleftrightarrow> to_int s a < to_int s b"
  "builtin_spaceship s a b \<noteq> ordering_greater \<longleftrightarrow> to_int s a \<le> to_int s b"
  "builtin_spaceship s a b = ordering_greater \<longleftrightarrow> to_int s a > to_int s b"
  "builtin_spaceship s a b \<noteq> ordering_less \<longleftrightarrow> to_int s a \<ge> to_int s b"
  "builtin_spaceship s a b = ordering_equal \<longleftrightarrow> to_int s a = to_int s b"
  by (auto simp add: builtin_spaceship_def)

text \<open>
  C6. For \<open>x\<close> and \<open>y\<close> of one instantiation, \<open>x == y\<close> holds exactly when the raw
  storages are identical, which is exactly when the logical values are equal; \<open><=>\<close>,
  \<open><\<close>, \<open><=\<close>, \<open>>\<close> and \<open>>=\<close> compare the logical values as \<open>T\<close> compares them, so the
  ordering of two values does not depend on the tag they are stored under.
\<close>

theorem equality_on_raw_ordering_on_value:
  assumes "8 dvd LENGTH('a::len)" and "Endian x = Endian y"
  shows "(operator_eq x y \<longleftrightarrow> raw x = raw (y::'a tjg_Int))
    \<and> (operator_eq x y \<longleftrightarrow> value native x = value native y)
    \<and> operator_spaceship native s x y = builtin_spaceship s (value native x) (value native y)
    \<and> (operator_lt native s x y \<longleftrightarrow> to_int s (value native x) < to_int s (value native y))
    \<and> (operator_le native s x y \<longleftrightarrow> to_int s (value native x) \<le> to_int s (value native y))
    \<and> (operator_gt native s x y \<longleftrightarrow> to_int s (value native x) > to_int s (value native y))
    \<and> (operator_ge native s x y \<longleftrightarrow> to_int s (value native x) \<ge> to_int s (value native y))
    \<and> operator_spaceship native s (Int_ctor native E a) (Int_ctor native E b)
        = builtin_spaceship s a (b::'a word)"
  using assms
  by (simp add: operator_eq_def value_eq_iff operator_spaceship_def operator_lt_def
      operator_le_def operator_gt_def operator_ge_def builtin_spaceship_iff value_Int_ctor
      not_less)

theorem equality_on_raw_ordering_on_value_witness:
  "8 dvd LENGTH(16)
   \<and> Endian \<lparr>Endian = big, raw = 0x0001 :: 16 word\<rparr> = Endian \<lparr>Endian = big, raw = 0x0200 :: 16 word\<rparr>
   \<and> \<not> operator_eq \<lparr>Endian = big, raw = 0x0001 :: 16 word\<rparr> \<lparr>Endian = big, raw = 0x0200\<rparr>
   \<and> operator_gt little unsigned_integral
        \<lparr>Endian = big, raw = 0x0001 :: 16 word\<rparr> \<lparr>Endian = big, raw = 0x0200\<rparr>
   \<and> \<not> operator_le little unsigned_integral
        \<lparr>Endian = big, raw = 0x0001 :: 16 word\<rparr> \<lparr>Endian = big, raw = 0x0200\<rparr>"
proof -
  have h: "8 dvd LENGTH(16)" by simp
  have e: "Endian \<lparr>Endian = big, raw = 0x0001 :: 16 word\<rparr>
         = Endian \<lparr>Endian = big, raw = 0x0200 :: 16 word\<rparr>" by simp
  have c: "std_byteswap (0x0001 :: 16 word) = 0x0100" "std_byteswap (0x0200 :: 16 word) = 0x0002"
    by code_simp+
  from equality_on_raw_ordering_on_value [OF h e, of little unsigned_integral] c h
  show ?thesis by (simp add: value_def Int_get_def to_int_def)
qed

lemma sint_or: "sint (a OR b) = sint a OR sint (b::'a::len word)"
  by (rule bit_eqI) (auto simp add: bit_sint_iff bit_or_iff dest: bit_imp_le_length)

lemma sint_and: "sint (a AND b) = sint a AND sint (b::'a::len word)"
  by (rule bit_eqI) (auto simp add: bit_sint_iff bit_and_iff dest: bit_imp_le_length)

lemma sint_xor: "sint (a XOR b) = sint a XOR sint (b::'a::len word)"
  by (rule bit_eqI) (auto simp add: bit_sint_iff bit_xor_iff dest: bit_imp_le_length)

lemma to_int_bitwise:
  "to_int s (a OR b) = to_int s a OR to_int s (b::'a::len word)"
  "to_int s (a AND b) = to_int s a AND to_int s b"
  "to_int s (a XOR b) = to_int s a XOR to_int s b"
  by (cases s; simp add: to_int_def sint_or sint_and sint_xor uint_or uint_and uint_xor)+

text \<open>
  C7. For \<open>x\<close> and \<open>y\<close> of one instantiation, \<open>x | y\<close>, \<open>x & y\<close> and \<open>x ^ y\<close> carry the tag
  of the operands, combine the raw storages with no byte reversal, and have as logical
  value the same operation on the operands' logical values.
\<close>

theorem bitwise_ops_stay_tagged:
  assumes "Endian x = Endian y"
  shows "Endian (operator_or x y) = Endian x
    \<and> Endian (operator_and x y) = Endian x
    \<and> Endian (operator_xor x y) = Endian x
    \<and> raw (operator_or x y) = raw x OR raw y
    \<and> raw (operator_and x y) = raw x AND raw y
    \<and> raw (operator_xor x y) = raw x XOR raw (y::'a::len tjg_Int)
    \<and> value native (operator_or x y) = value native x OR value native y
    \<and> value native (operator_and x y) = value native x AND value native y
    \<and> value native (operator_xor x y) = value native x XOR value native y
    \<and> to_int s (value native (operator_or x y))
        = to_int s (value native x) OR to_int s (value native y)
    \<and> to_int s (value native (operator_and x y))
        = to_int s (value native x) AND to_int s (value native y)
    \<and> to_int s (value native (operator_xor x y))
        = to_int s (value native x) XOR to_int s (value native y)"
proof -
  have v: "value native (operator_or x y) = value native x OR value native y"
    "value native (operator_and x y) = value native x AND value native y"
    "value native (operator_xor x y) = value native x XOR value native y"
    using assms
    by (simp_all add: operator_or_def operator_or_assign_def operator_and_def
        operator_and_assign_def operator_xor_def operator_xor_assign_def value_def Int_get_def
        std_byteswap_or std_byteswap_and std_byteswap_xor)
  show ?thesis
    by (simp add: v to_int_bitwise)
      (simp add: operator_or_def operator_or_assign_def operator_and_def
        operator_and_assign_def operator_xor_def operator_xor_assign_def)
qed

theorem bitwise_ops_stay_tagged_witness:
  "Endian \<lparr>Endian = big, raw = 0x00F0 :: 16 word\<rparr> = Endian \<lparr>Endian = big, raw = 0x3F00 :: 16 word\<rparr>
   \<and> operator_or \<lparr>Endian = big, raw = 0x00F0 :: 16 word\<rparr> \<lparr>Endian = big, raw = 0x3F00\<rparr>
       = \<lparr>Endian = big, raw = 0x3FF0\<rparr>
   \<and> value little (operator_or \<lparr>Endian = big, raw = 0x00F0 :: 16 word\<rparr> \<lparr>Endian = big, raw = 0x3F00\<rparr>)
       = 0xF000 OR 0x003F"
proof -
  have e: "Endian \<lparr>Endian = big, raw = 0x00F0 :: 16 word\<rparr>
         = Endian \<lparr>Endian = big, raw = 0x3F00 :: 16 word\<rparr>" by simp
  have c: "std_byteswap (0x00F0 :: 16 word) = 0xF000" "std_byteswap (0x3F00 :: 16 word) = 0x003F"
    "std_byteswap (0x3FF0 :: 16 word) = 0xF03F"
    by code_simp+
  from bitwise_ops_stay_tagged [OF e, of little unsigned_integral] c
  show ?thesis by (simp add: tjg_Int.equality value_def Int_get_def)
qed

lemma narrow_cast_builtin_compl:
  "narrow_cast (builtin_compl int_width s x) = NOT (x::'a::len word)"
proof (cases "promotes_to_signed int_width s LENGTH('a)")
  case True
  have "word_of_int (- to_int s x - 1) = - (word_of_int (to_int s x) :: 'a word) - 1"
    by simp
  also have "\<dots> = - x - 1"
    using static_cast_to_int [of s x] by (simp add: static_cast_def)
  finally show ?thesis
    using True by (simp add: narrow_cast_def static_cast_def builtin_compl_def not_eq_complement)
next
  case False
  then have s: "s = unsigned_integral" and w: "promoted_width int_width LENGTH('a) = LENGTH('a)"
    by (cases s; simp add: promotes_to_signed_def promoted_width_def)+
  have "word_of_int (2 ^ LENGTH('a) - 1 - uint x) = (- x - 1 :: 'a word)"
    by (simp add: word_of_int_2p_len)
  then show ?thesis
    using False s w
    by (simp add: narrow_cast_def static_cast_def builtin_compl_def not_eq_complement to_int_def)
qed

lemma operator_compl_eq:
  "operator_compl int_width s x = \<lparr>Endian = Endian x, raw = NOT (raw x)\<rparr>"
  by (simp add: operator_compl_def narrow_cast_builtin_compl Int_default_def)

lemma builtin_neg_narrow:
  assumes "LENGTH('a::len) < int_width"
  shows "builtin_neg int_width s (v::'a word) = Some (- to_int s v)"
proof -
  have a: "- to_int s v \<le> 2 ^ (LENGTH('a) - 1)"
  proof (cases s)
    case signed_integral
    have "- (2 ^ (LENGTH('a) - 1)) \<le> sint v" by (rule sint_ge)
    then show ?thesis using signed_integral by (simp add: to_int_def)
  next
    case unsigned_integral
    have "0 \<le> uint v" and "(0::int) \<le> 2 ^ (LENGTH('a) - 1)" by simp_all
    then have "- uint v \<le> 2 ^ (LENGTH('a) - 1)" by linarith
    then show ?thesis using unsigned_integral by (simp add: to_int_def)
  qed
  have "LENGTH('a) - 1 < int_width - 1"
    using assms by (cases "LENGTH('a)") simp_all
  then have "(2::int) ^ (LENGTH('a) - 1) < 2 ^ (int_width - 1)"
    by (intro power_strict_increasing) simp_all
  with a have "- to_int s v < 2 ^ (int_width - 1)" by linarith
  then show ?thesis
    using assms by (simp add: builtin_neg_def promotes_to_signed_def promoted_width_def max_def)
qed

lemma builtin_neg_signed:
  assumes "int_width \<le> LENGTH('a::len)"
  shows "builtin_neg int_width signed_integral (v::'a word)
    = (if to_int signed_integral v = type_min signed_integral LENGTH('a) then None
       else Some (- to_int signed_integral v))"
proof -
  have "- (2 ^ (LENGTH('a) - 1)) \<le> sint v" by (rule sint_ge)
  then have "- sint v < 2 ^ (LENGTH('a) - 1) \<longleftrightarrow> sint v \<noteq> - (2 ^ (LENGTH('a) - 1))"
    by linarith
  then show ?thesis
    using assms
    by (simp add: builtin_neg_def promotes_to_signed_def promoted_width_def max_def
        to_int_def type_min_def)
qed

lemma builtin_neg_unsigned:
  assumes "int_width \<le> LENGTH('a::len)"
  shows "builtin_neg int_width unsigned_integral (v::'a word)
    = Some (if v = 0 then 0 else 2 ^ LENGTH('a) - to_int unsigned_integral v)"
proof (cases "v = 0")
  case True
  then show ?thesis
    using assms by (simp add: builtin_neg_def promotes_to_signed_def promoted_width_def to_int_def)
next
  case False
  then have "uint v \<noteq> 0" by (simp add: uint_0_iff)
  moreover have "0 \<le> uint v" by simp
  ultimately have p: "0 < uint v" by linarith
  have b: "uint v < 2 ^ LENGTH('a)" by (rule uint_lt2p)
  have "(- uint v) mod 2 ^ LENGTH('a) = (2 ^ LENGTH('a) - uint v) mod 2 ^ LENGTH('a)"
    by (metis add.commute mod_add_self2 uminus_add_conv_diff)
  also have "\<dots> = 2 ^ LENGTH('a) - uint v"
    using p b by (intro mod_pos_pos_trivial) linarith+
  finally show ?thesis
    using False assms
    by (simp add: builtin_neg_def promotes_to_signed_def promoted_width_def max_def to_int_def)
qed

text \<open>
  C8, as the code has it. The logical value of \<open>~x\<close> is the complement of the logical
  value of \<open>x\<close> truncated to \<open>T\<close>; \<open>!x\<close> holds exactly when the logical value is 0 and
  \<open>bool(x)\<close> exactly when it is not. \<open>-x\<close> is the built-in negation of the logical
  value after the integral promotions: the negation as an integer when \<open>T\<close> is narrower
  than \<open>int\<close>, and when \<open>T\<close> is signed and the value is not the least of \<open>T\<close>;
  \<open>2 ^ N - value\<close> (0 for 0) when \<open>T\<close> is unsigned and at least as wide as \<open>int\<close>;
  undefined for the least value of a signed \<open>T\<close> at least as wide as \<open>int\<close>.
\<close>

theorem unary_ops_through_logical_value:
  assumes "8 dvd LENGTH('a::len)"
  shows "value native (operator_compl int_width s x)
        = narrow_cast (builtin_compl int_width s (value native (x::'a tjg_Int)))
    \<and> value native (operator_compl int_width s x) = NOT (value native x)
    \<and> Endian (operator_compl int_width s x) = Endian x
    \<and> (operator_lnot x \<longleftrightarrow> value native x = 0)
    \<and> (operator_bool x \<longleftrightarrow> value native x \<noteq> 0)
    \<and> operator_neg int_width native s x = builtin_neg int_width s (value native x)
    \<and> (\<forall>r. operator_neg int_width native s x = Some r \<longrightarrow>
          r mod 2 ^ promoted_width int_width LENGTH('a)
            = (- to_int s (value native x)) mod 2 ^ promoted_width int_width LENGTH('a)
          \<and> (promotes_to_signed int_width s LENGTH('a) \<longrightarrow> r = - to_int s (value native x)))
    \<and> (LENGTH('a) < int_width \<longrightarrow>
          operator_neg int_width native s x = Some (- to_int s (value native x)))
    \<and> (int_width \<le> LENGTH('a)
          \<and> to_int signed_integral (value native x) \<noteq> type_min signed_integral LENGTH('a) \<longrightarrow>
          operator_neg int_width native signed_integral x
            = Some (- to_int signed_integral (value native x)))
    \<and> (int_width \<le> LENGTH('a)
          \<and> to_int signed_integral (value native x) = type_min signed_integral LENGTH('a) \<longrightarrow>
          operator_neg int_width native signed_integral x = None)
    \<and> (int_width \<le> LENGTH('a) \<longrightarrow>
          operator_neg int_width native unsigned_integral x
            = Some (if value native x = 0 then 0
                    else 2 ^ LENGTH('a) - to_int unsigned_integral (value native x)))"
proof -
  have z: "value native x = 0 \<longleftrightarrow> raw x = 0"
    using assms std_byteswap_eq_iff [of "raw x" 0]
    by (simp add: value_def Int_get_def std_byteswap_0)
  have c: "value native (operator_compl int_width s x) = NOT (value native x)"
    using assms by (simp add: operator_compl_eq value_def Int_get_def std_byteswap_not)
  have n: "\<forall>r. operator_neg int_width native s x = Some r \<longrightarrow>
          r mod 2 ^ promoted_width int_width LENGTH('a)
            = (- to_int s (value native x)) mod 2 ^ promoted_width int_width LENGTH('a)
          \<and> (promotes_to_signed int_width s LENGTH('a) \<longrightarrow> r = - to_int s (value native x))"
    by (auto simp add: operator_neg_def builtin_neg_def split: if_splits)
  have m: "LENGTH('a) < int_width \<longrightarrow>
          operator_neg int_width native s x = Some (- to_int s (value native x))"
    by (simp add: operator_neg_def builtin_neg_narrow)
  have g: "int_width \<le> LENGTH('a) \<longrightarrow>
      operator_neg int_width native signed_integral x
        = (if to_int signed_integral (value native x) = type_min signed_integral LENGTH('a)
           then None else Some (- to_int signed_integral (value native x)))"
    by (simp add: operator_neg_def builtin_neg_signed)
  have u: "int_width \<le> LENGTH('a) \<longrightarrow>
          operator_neg int_width native unsigned_integral x
            = Some (if value native x = 0 then 0
                    else 2 ^ LENGTH('a) - to_int unsigned_integral (value native x))"
    by (simp add: operator_neg_def builtin_neg_unsigned)
  have a: "value native (operator_compl int_width s x)
        = narrow_cast (builtin_compl int_width s (value native x))
    \<and> value native (operator_compl int_width s x) = NOT (value native x)
    \<and> Endian (operator_compl int_width s x) = Endian x
    \<and> (operator_lnot x \<longleftrightarrow> value native x = 0)
    \<and> (operator_bool x \<longleftrightarrow> value native x \<noteq> 0)
    \<and> operator_neg int_width native s x = builtin_neg int_width s (value native x)"
    using c by (simp add: z narrow_cast_builtin_compl operator_lnot_def operator_bool_def
        operator_neg_def operator_compl_eq)
  from g have g1: "int_width \<le> LENGTH('a)
          \<and> to_int signed_integral (value native x) \<noteq> type_min signed_integral LENGTH('a) \<longrightarrow>
          operator_neg int_width native signed_integral x
            = Some (- to_int signed_integral (value native x))"
    by simp
  from g have g2: "int_width \<le> LENGTH('a)
          \<and> to_int signed_integral (value native x) = type_min signed_integral LENGTH('a) \<longrightarrow>
          operator_neg int_width native signed_integral x = None"
    by simp
  from a n m g1 g2 u show ?thesis by blast
qed

theorem unary_ops_through_logical_value_witness:
  "8 dvd LENGTH(16) \<and> 8 dvd LENGTH(32) \<and> LENGTH(16) < (32::nat) \<and> (32::nat) \<le> LENGTH(32)
   \<and> value little (operator_compl 32 unsigned_integral \<lparr>Endian = big, raw = 0x0100 :: 16 word\<rparr>) = 0xFFFE
   \<and> \<not> operator_lnot \<lparr>Endian = big, raw = 0x0100 :: 16 word\<rparr>
   \<and> operator_bool \<lparr>Endian = big, raw = 0x0100 :: 16 word\<rparr>
   \<and> operator_neg 32 little unsigned_integral \<lparr>Endian = big, raw = 0x0100 :: 16 word\<rparr> = Some (- 1)
   \<and> to_int signed_integral (value little \<lparr>Endian = little, raw = 5 :: 32 word\<rparr>)
        \<noteq> type_min signed_integral LENGTH(32)
   \<and> operator_neg 32 little signed_integral \<lparr>Endian = little, raw = 5 :: 32 word\<rparr> = Some (- 5)
   \<and> to_int signed_integral (value little \<lparr>Endian = little, raw = 0x80000000 :: 32 word\<rparr>)
        = type_min signed_integral LENGTH(32)
   \<and> operator_neg 32 little signed_integral \<lparr>Endian = little, raw = 0x80000000 :: 32 word\<rparr> = None
   \<and> operator_neg 32 little unsigned_integral \<lparr>Endian = little, raw = 1 :: 32 word\<rparr>
        = Some 4294967295"
proof -
  have h: "8 dvd LENGTH(16)" and h': "8 dvd LENGTH(32)" by simp_all
  have c: "std_byteswap (0x0100 :: 16 word) = 0x0001" by code_simp
  have v: "value little \<lparr>Endian = big, raw = 0x0100 :: 16 word\<rparr> = 1"
    using c by (simp add: value_def Int_get_def)
  have v5: "value little \<lparr>Endian = little, raw = 5 :: 32 word\<rparr> = 5"
    and vm: "value little \<lparr>Endian = little, raw = 0x80000000 :: 32 word\<rparr> = 0x80000000"
    and v1: "value little \<lparr>Endian = little, raw = 1 :: 32 word\<rparr> = 1"
    by (simp_all add: value_def Int_get_def)
  have m: "NOT (1 :: 16 word) = 0xFFFE" by simp
  have s5: "sint (5 :: 32 word) = 5" and sm: "sint (0x80000000 :: 32 word) = - 2147483648"
    by simp_all
  have w1: "value little (operator_compl 32 unsigned_integral \<lparr>Endian = big, raw = 0x0100 :: 16 word\<rparr>) = 0xFFFE
      \<and> \<not> operator_lnot \<lparr>Endian = big, raw = 0x0100 :: 16 word\<rparr>
      \<and> operator_bool \<lparr>Endian = big, raw = 0x0100 :: 16 word\<rparr>
      \<and> operator_neg 32 little unsigned_integral \<lparr>Endian = big, raw = 0x0100 :: 16 word\<rparr> = Some (- 1)"
    using unary_ops_through_logical_value [OF h, of little 32 unsigned_integral
      "\<lparr>Endian = big, raw = 0x0100\<rparr>"]
    by (elim conjE) (simp add: v narrow_cast_builtin_compl m to_int_def)
  have w2: "operator_neg 32 little signed_integral \<lparr>Endian = little, raw = 5 :: 32 word\<rparr> = Some (- 5)"
    using unary_ops_through_logical_value [OF h', of little 32 signed_integral
      "\<lparr>Endian = little, raw = 5\<rparr>"]
    by (elim conjE) (simp add: v5 s5 to_int_def type_min_def)
  have w3: "operator_neg 32 little signed_integral \<lparr>Endian = little, raw = 0x80000000 :: 32 word\<rparr> = None"
    using unary_ops_through_logical_value [OF h', of little 32 signed_integral
      "\<lparr>Endian = little, raw = 0x80000000\<rparr>"]
    by (elim conjE) (simp add: vm sm to_int_def type_min_def)
  have w4: "operator_neg 32 little unsigned_integral \<lparr>Endian = little, raw = 1 :: 32 word\<rparr>
        = Some 4294967295"
    using unary_ops_through_logical_value [OF h', of little 32 unsigned_integral
      "\<lparr>Endian = little, raw = 1\<rparr>"]
    by (elim conjE) (simp add: v1 to_int_def)
  show ?thesis
    using w1 w2 w3 w4 v5 vm s5 sm by (simp add: to_int_def type_min_def)
qed

text \<open>
  C8 as stated fails: with a 32-bit \<open>int\<close>, \<open>-x\<close> for the 32-bit unsigned 1 is
  4294967295, not the integer \<open>- 1\<close>, and for the least 32-bit signed value the
  negation is undefined.
\<close>

theorem unary_minus_not_integer_negation:
  "operator_neg 32 little unsigned_integral \<lparr>Endian = little, raw = 1 :: 32 word\<rparr>
     = Some 4294967295
   \<and> operator_neg 32 little unsigned_integral \<lparr>Endian = little, raw = 1 :: 32 word\<rparr>
     \<noteq> Some (- to_int unsigned_integral (value little \<lparr>Endian = little, raw = 1 :: 32 word\<rparr>))
   \<and> operator_neg 32 little signed_integral \<lparr>Endian = little, raw = 0x80000000 :: 32 word\<rparr>
     = None"
  by (simp add: operator_neg_def builtin_neg_def promotes_to_signed_def promoted_width_def
      to_int_def value_def Int_get_def)

section \<open>The truncating cast\<close>

text \<open>
  C9. The truncating cast to a type other than the source's returns an \<open>Int\<close> tagged
  with the native order, whatever the tag of the source; the cast to the source's own
  type returns its argument unchanged, tag included.
\<close>

theorem narrow_cast_result_tag:
  "Endian (narrow_cast_Int native sF x :: 't::len tjg_Int) = native
   \<and> narrow_cast_same y = y
   \<and> Endian (narrow_cast_same y) = Endian y
   \<and> raw (narrow_cast_same y) = raw y"
  by (simp add: narrow_cast_Int_def narrow_cast_same_def Endian_Int_ctor)

lemma to_int_mod: "to_int s (w::'a::len word) mod 2 ^ LENGTH('a) = uint w"
proof -
  have "uint (word_of_int (to_int s w) :: 'a word) = to_int s w mod 2 ^ LENGTH('a)"
    by (rule uint_word_of_int)
  then show ?thesis
    using static_cast_to_int [of s w] by (simp add: static_cast_def)
qed

text \<open>
  C2. The truncating cast of an \<open>Int<FmT, E>\<close> to \<open>ToT\<close> always returns, and the logical
  value of the result is the logical value of the source modulo \<open>2 ^ N\<close>, \<open>N\<close> the width
  of \<open>ToT\<close>, read with the signedness of \<open>ToT\<close>: what \<open>static_cast<ToT>\<close> gives.
\<close>

theorem narrow_cast_truncates:
  "value native (narrow_cast_Int native sF x :: 't::len tjg_Int)
     = static_cast (to_int sF (value native x))
   \<and> uint (value native (narrow_cast_Int native sF x :: 't tjg_Int))
     = to_int sF (value native x) mod 2 ^ LENGTH('t)
   \<and> to_int sT (value native (narrow_cast_Int native sF x :: 't tjg_Int))
     = reinterpret sT LENGTH('t) (to_int sF (value native x) mod 2 ^ LENGTH('t))
   \<and> to_int sT (value native (narrow_cast_same (y :: 't tjg_Int)))
     = reinterpret sT LENGTH('t) (to_int sT (value native y) mod 2 ^ LENGTH('t))"
proof -
  have v: "value native (narrow_cast_Int native sF x :: 't tjg_Int)
     = static_cast (to_int sF (value native x))"
    by (simp add: narrow_cast_Int_def narrow_cast_def value_Int_ctor_native)
  have u: "uint (static_cast (to_int sF (value native x)) :: 't word)
     = to_int sF (value native x) mod 2 ^ LENGTH('t)"
    by (simp add: static_cast_def uint_word_of_int)
  have t: "to_int sT (static_cast (to_int sF (value native x)) :: 't word)
     = reinterpret sT LENGTH('t) (to_int sF (value native x) mod 2 ^ LENGTH('t))"
    using to_int_eq_reinterpret [of sT "static_cast (to_int sF (value native x)) :: 't word"]
    by (simp only: u)
  have s: "to_int sT (value native y)
     = reinterpret sT LENGTH('t) (to_int sT (value native y) mod 2 ^ LENGTH('t))"
    unfolding to_int_mod by (rule to_int_eq_reinterpret)
  show ?thesis
    using u t s by (simp add: v narrow_cast_same_def)
qed

theorem narrow_cast_truncates_witness:
  "value little (narrow_cast_Int little unsigned_integral
      \<lparr>Endian = big, raw = 0x78563412 :: 32 word\<rparr> :: 16 tjg_Int) = 0x5678"
proof -
  have c: "std_byteswap (0x78563412 :: 32 word) = 0x12345678" by code_simp
  show ?thesis
    using narrow_cast_truncates [of little unsigned_integral
        "\<lparr>Endian = big, raw = 0x78563412 :: 32 word\<rparr>", where 't=16] c
    by (simp add: value_def Int_get_def static_cast_def to_int_def)
qed

section \<open>Conversion safety\<close>

















end
